theory Spec2Isabelle
  imports Main "HOL-Library.AList"
begin

section \<open>Text\<close>

text \<open>
  A Python \<open>str\<close> is a sequence of code points. The embedding takes text in the
  Latin-1 range, one \<open>char\<close> per code point, so that \<open>length\<close> is Python's
  \<open>len\<close>.
\<close>

definition isspace :: "char \<Rightarrow> bool" where
  \<comment> \<open>\<open>str.isspace\<close> and the regular expression class \<open>\s\<close>, below code point 256\<close>
  "isspace c \<longleftrightarrow> c \<in> set [CHR 0x09, CHR 0x0A, CHR 0x0B, CHR 0x0C, CHR 0x0D,
     CHR 0x1C, CHR 0x1D, CHR 0x1E, CHR 0x1F, CHR 0x20, CHR 0x85, CHR 0xA0]"

definition strip :: "string \<Rightarrow> string" where
  "strip s = rev (dropWhile isspace (rev (dropWhile isspace s)))"

definition uppercase_letters :: string where
  \<comment> \<open>the code points below 256 that \<open>str.lower\<close> changes: A to Z, and the Latin-1
      capitals 0xC0 to 0xDE without the multiplication sign 0xD7\<close>
  "uppercase_letters = ''ABCDEFGHIJKLMNOPQRSTUVWXYZ''
     @ [CHR 0xC0, CHR 0xC1, CHR 0xC2, CHR 0xC3, CHR 0xC4, CHR 0xC5, CHR 0xC6, CHR 0xC7,
        CHR 0xC8, CHR 0xC9, CHR 0xCA, CHR 0xCB, CHR 0xCC, CHR 0xCD, CHR 0xCE, CHR 0xCF,
        CHR 0xD0, CHR 0xD1, CHR 0xD2, CHR 0xD3, CHR 0xD4, CHR 0xD5, CHR 0xD6,
        CHR 0xD8, CHR 0xD9, CHR 0xDA, CHR 0xDB, CHR 0xDC, CHR 0xDD, CHR 0xDE]"

definition lowercase_letters :: string where
  \<comment> \<open>their lower-case forms, 32 code points higher, in the same order\<close>
  "lowercase_letters = ''abcdefghijklmnopqrstuvwxyz''
     @ [CHR 0xE0, CHR 0xE1, CHR 0xE2, CHR 0xE3, CHR 0xE4, CHR 0xE5, CHR 0xE6, CHR 0xE7,
        CHR 0xE8, CHR 0xE9, CHR 0xEA, CHR 0xEB, CHR 0xEC, CHR 0xED, CHR 0xEE, CHR 0xEF,
        CHR 0xF0, CHR 0xF1, CHR 0xF2, CHR 0xF3, CHR 0xF4, CHR 0xF5, CHR 0xF6,
        CHR 0xF8, CHR 0xF9, CHR 0xFA, CHR 0xFB, CHR 0xFC, CHR 0xFD, CHR 0xFE]"

definition lower_char :: "char \<Rightarrow> char" where
  "lower_char c =
     (case map_of (zip uppercase_letters lowercase_letters) c of
        None \<Rightarrow> c
      | Some l \<Rightarrow> l)"

definition lower :: "string \<Rightarrow> string" where
  "lower s = map lower_char s"

fun startswith :: "string \<Rightarrow> string \<Rightarrow> bool" where
  "startswith s [] = True"
| "startswith [] (p # ps) = False"
| "startswith (c # cs) (p # ps) = (c = p \<and> startswith cs ps)"

fun contains :: "string \<Rightarrow> string \<Rightarrow> bool" where
  \<comment> \<open>\<open>contains s sub\<close> is Python's \<open>sub in s\<close>\<close>
  "contains [] sub = (sub = [])"
| "contains (c # cs) sub = (startswith (c # cs) sub \<or> contains cs sub)"

fun split_on :: "char \<Rightarrow> string \<Rightarrow> string list" where
  \<comment> \<open>\<open>s.split(sep)\<close> for a separator of one character\<close>
  "split_on sep [] = [[]]"
| "split_on sep (c # cs) =
     (if c = sep then [] # split_on sep cs
      else (case split_on sep cs of
              [] \<Rightarrow> [[c]]
            | w # ws \<Rightarrow> (c # w) # ws))"

definition newline :: char where
  "newline = CHR 0x0A"

definition backslash :: char where
  "backslash = CHR 0x5C"

definition is_linebreak :: "char \<Rightarrow> bool" where
  \<comment> \<open>the line boundaries of \<open>str.splitlines\<close>, below code point 256\<close>
  "is_linebreak c \<longleftrightarrow> c \<in> set [CHR 0x0A, CHR 0x0B, CHR 0x0C, CHR 0x0D,
     CHR 0x1C, CHR 0x1D, CHR 0x1E, CHR 0x85]"

fun splitlines_from :: "string \<Rightarrow> string \<Rightarrow> string list" where
  \<comment> \<open>the first argument is the line read so far, reversed\<close>
  "splitlines_from cur [] = (if cur = [] then [] else [rev cur])"
| "splitlines_from cur (c # cs) =
     (if c = CHR 0x0D then
        (case cs of
           [] \<Rightarrow> rev cur # splitlines_from [] []
         | c' # cs' \<Rightarrow>
             if c' = CHR 0x0A then rev cur # splitlines_from [] cs'
             else rev cur # splitlines_from [] (c' # cs'))
      else if is_linebreak c then rev cur # splitlines_from [] cs
      else splitlines_from (c # cur) cs)"

definition splitlines :: "string \<Rightarrow> string list" where
  "splitlines s = splitlines_from [] s"

fun join :: "string \<Rightarrow> string list \<Rightarrow> string" where
  \<comment> \<open>\<open>join sep parts\<close> is \<open>sep.join(parts)\<close>\<close>
  "join sep [] = []"
| "join sep [x] = x"
| "join sep (x # y # ys) = x @ sep @ join sep (y # ys)"

fun re_search_literal :: "bool \<Rightarrow> string \<Rightarrow> string \<Rightarrow> bool" where
  \<comment> \<open>\<open>re.search\<close> for a pattern that matches one fixed text; the flag is
      \<open>re.IGNORECASE\<close>\<close>
  "re_search_literal ignorecase pat s =
     (if ignorecase then contains (lower s) (lower pat) else contains s pat)"

fun re_sub_literal_from :: "nat \<Rightarrow> bool \<Rightarrow> string \<Rightarrow> string \<Rightarrow> string \<Rightarrow> string" where
  \<comment> \<open>the first argument counts the characters of a match still to be skipped\<close>
  "re_sub_literal_from skip ignorecase pat repl [] = []"
| "re_sub_literal_from (Suc skip) ignorecase pat repl (c # cs) =
     re_sub_literal_from skip ignorecase pat repl cs"
| "re_sub_literal_from 0 ignorecase pat repl (c # cs) =
     (if (if ignorecase then startswith (lower (take (length pat) (c # cs))) (lower pat)
          else startswith (c # cs) pat)
      then repl @ re_sub_literal_from (length pat - 1) ignorecase pat repl cs
      else c # re_sub_literal_from 0 ignorecase pat repl cs)"

definition re_sub_literal :: "bool \<Rightarrow> string \<Rightarrow> string \<Rightarrow> string \<Rightarrow> string" where
  \<comment> \<open>\<open>re.sub\<close> for a pattern that matches one fixed, non-empty text: every match,
      left to right, without overlap\<close>
  "re_sub_literal ignorecase pat repl s = re_sub_literal_from 0 ignorecase pat repl s"

section \<open>JSON values\<close>

text \<open>
  The values that \<open>json.loads\<close> builds and \<open>jsonify\<close> sends: \<open>None\<close> is \<open>JNull\<close>,
  a \<open>dict\<close> is an association list in insertion order. A floating-point number is kept
  as the literal that denotes it; the embedding does no floating-point arithmetic.
\<close>

datatype json =
    JNull
  | JBool bool
  | JInt int
  | JFloat string
  | JStr string
  | JArr "json list"
  | JObj "(string \<times> json) list"

datatype exn =
  AttributeError | TypeError | IndexError | KeyError | OverflowError | JSONDecodeError

type_synonym response = "json \<times> nat"

definition error_response :: "string \<Rightarrow> nat \<Rightarrow> response" where
  \<comment> \<open>\<open>jsonify({"error": msg}), status\<close>\<close>
  "error_response msg status = (JObj [(''error'', JStr msg)], status)"

section \<open>Authentication\<close>

record environ =
  GATEWAY_API_KEYS :: string
  GATEWAY_API_KEY :: string

definition gateway_allowed_keys :: "environ \<Rightarrow> string set" where
  "gateway_allowed_keys env =
     set (filter (\<lambda>token. token \<noteq> []) (map strip (split_on CHR '','' (GATEWAY_API_KEYS env))))
     \<union> (let single = strip (GATEWAY_API_KEY env) in if single \<noteq> [] then {single} else {})"

definition gateway_extract_bearer_token :: "string option \<Rightarrow> string" where
  \<comment> \<open>the argument is the Authorization header, \<open>None\<close> when the request has none\<close>
  "gateway_extract_bearer_token header =
     (let auth = strip (case header of None \<Rightarrow> [] | Some h \<Rightarrow> h)
      in if \<not> startswith (lower auth) ''bearer '' then []
         else strip (drop 7 auth))"

definition gateway_require_auth :: "environ \<Rightarrow> string option \<Rightarrow> response option" where
  "gateway_require_auth env header =
     (let allowed = gateway_allowed_keys env
      in if allowed = {} then Some (error_response ''Gateway authentication is not configured'' 503)
         else let token = gateway_extract_bearer_token header
              in if token = [] \<or> token \<notin> allowed then Some (error_response ''Unauthorized'' 401)
                 else None)"

section \<open>Prompt softening\<close>

definition must_pattern :: string where
  \<comment> \<open>the text that the pattern \<open>r"\\bmust\\b"\<close> matches: in a raw string \<open>\\\<close> is
      the regular expression for one backslash, so the pattern is a backslash, \<open>bmust\<close>,
      a backslash, \<open>b\<close>\<close>
  "must_pattern = backslash # ''bmust'' @ [backslash, CHR ''b'']"

definition MUST_pattern :: string where
  "MUST_pattern = backslash # ''bMUST'' @ [backslash, CHR ''b'']"

definition soften_line :: "string \<Rightarrow> string list" where
  \<comment> \<open>one pass of the loop body: the lines appended to \<open>softened\<close>\<close>
  "soften_line line =
     (let lower = lower line
      in if contains lower ''override any default guidance'' then []
         else if contains lower ''do not wrap your response''
           then [''Return a valid JSON object without markdown code fences.'']
         else
           let line = (if contains lower ''strict json''
                       then re_sub_literal True ''STRICT JSON'' ''valid JSON'' line else line);
               line = (if re_search_literal True must_pattern line
                       then re_sub_literal False must_pattern ''please''
                              (re_sub_literal False MUST_pattern ''Please'' line)
                       else line)
           in [line])"

definition soften_prompt :: "string \<Rightarrow> string" where
  "soften_prompt prompt =
     join [newline] (concat (map soften_line (splitlines prompt))
                     @ [''Please return only a valid JSON object.''])"

section \<open>Content ceilings of the prompt builders\<close>

definition build_topic_extraction_prompt :: "string \<Rightarrow> string \<Rightarrow> string" where
  \<comment> \<open>the first argument is the fixed text of the template that follows the content,
      from \<open>INSTRUCTIONS:\<close> to the end\<close>
  "build_topic_extraction_prompt instructions content =
     (let max_length = 150000;
          content = (if length content > max_length then take max_length content else content)
      in ''You are an educational content analyzer. Extract meaningful topics from the content structure.''
         @ [newline, newline] @ ''CONTENT TO ANALYZE:'' @ [newline] @ ''---'' @ [newline]
         @ content @ [newline] @ ''---'' @ [newline, newline] @ instructions)"

definition question_generation_prompt_start :: "string \<Rightarrow> string \<Rightarrow> string" where
  \<comment> \<open>\<open>_build_question_generation_prompt\<close> up to its first assignment of \<open>prompt\<close>\<close>
  "question_generation_prompt_start topic_title topic_content =
     (let max_content_length = 5000;
          topic_content = (if length topic_content > max_content_length
                           then take max_content_length topic_content @ ''...''
                           else topic_content)
      in ''Topic: '' @ topic_title @ [newline] @ ''Content:'' @ [newline]
         @ topic_content @ [newline, newline])"

section \<open>Selection from a distribution\<close>

text \<open>
  The weights of a distribution come out of the request's JSON as they are, so a weight is
  any JSON value. Python adds integers exactly (a boolean counts as 0 or 1), and adds in
  floating point as soon as one operand is a float, after converting the other, which
  raises \<open>OverflowError\<close> for an integer beyond the range of a float. The embedding
  does no floating-point arithmetic of its own: the operations on floats are taken as
  they are, in a record, and every property below holds whatever they compute.
\<close>

record 'f float_arith =
  float_of_literal :: "string \<Rightarrow> 'f"
  float_of_int :: "int \<Rightarrow> 'f option"
  float_add :: "'f \<Rightarrow> 'f \<Rightarrow> 'f"
  int_le_float :: "int \<Rightarrow> 'f \<Rightarrow> bool"

datatype 'f number = PyInt int | PyFloat 'f

definition number_of_json :: "'f float_arith \<Rightarrow> json \<Rightarrow> 'f number option" where
  \<comment> \<open>the number that a JSON value is in Python, \<open>None\<close> when it is not a number\<close>
  "number_of_json fl v =
     (case v of
        JInt n \<Rightarrow> Some (PyInt n)
      | JBool b \<Rightarrow> Some (PyInt (if b then 1 else 0))
      | JFloat lit \<Rightarrow> Some (PyFloat (float_of_literal fl lit))
      | _ \<Rightarrow> None)"

definition to_float :: "'f float_arith \<Rightarrow> 'f number \<Rightarrow> exn + 'f" where
  "to_float fl x =
     (case x of
        PyFloat f \<Rightarrow> Inr f
      | PyInt n \<Rightarrow> (case float_of_int fl n of None \<Rightarrow> Inl OverflowError | Some f \<Rightarrow> Inr f))"

definition number_add :: "'f float_arith \<Rightarrow> 'f number \<Rightarrow> 'f number \<Rightarrow> exn + 'f number" where
  "number_add fl x y =
     (case (x, y) of
        (PyInt a, PyInt b) \<Rightarrow> Inr (PyInt (a + b))
      | _ \<Rightarrow>
          (case to_float fl x of
             Inl e \<Rightarrow> Inl e
           | Inr f \<Rightarrow>
               (case to_float fl y of
                  Inl e \<Rightarrow> Inl e
                | Inr g \<Rightarrow> Inr (PyFloat (float_add fl f g)))))"

definition int_le_number :: "'f float_arith \<Rightarrow> int \<Rightarrow> 'f number \<Rightarrow> bool" where
  \<comment> \<open>\<open>rand <= cumulative\<close>; Python compares an integer with a float exactly\<close>
  "int_le_number fl n x = (case x of PyInt c \<Rightarrow> n \<le> c | PyFloat f \<Rightarrow> int_le_float fl n f)"

definition add_weight :: "'f float_arith \<Rightarrow> 'f number \<Rightarrow> json \<Rightarrow> exn + 'f number" where
  \<comment> \<open>\<open>cumulative += percentage\<close>: what \<open>cumulative\<close> is afterwards, or what is raised\<close>
  "add_weight fl cumulative percentage =
     (case number_of_json fl percentage of
        None \<Rightarrow> Inl TypeError
      | Some y \<Rightarrow> number_add fl cumulative y)"

fun walk_distribution ::
  "'f float_arith \<Rightarrow> int \<Rightarrow> 'f number \<Rightarrow> (string \<times> json) list \<Rightarrow> exn + string option" where
  \<comment> \<open>the loop over \<open>distribution.items()\<close>: \<open>Some level\<close> when it returns\<close>
  "walk_distribution fl rand cumulative [] = Inr None"
| "walk_distribution fl rand cumulative ((level, percentage) # rest) =
     (case add_weight fl cumulative percentage of
        Inl e \<Rightarrow> Inl e
      | Inr cumulative \<Rightarrow>
          if int_le_number fl rand cumulative then Inr (Some level)
          else walk_distribution fl rand cumulative rest)"

definition select_from_distribution ::
  "'f float_arith \<Rightarrow> int \<Rightarrow> (string \<times> json) list \<Rightarrow> exn + string" where
  \<comment> \<open>the second argument is the draw \<open>random.randint(1, 100)\<close>; the mapping is the
      dictionary's items in order\<close>
  "select_from_distribution fl rand distribution =
     (case walk_distribution fl rand (PyInt 0) distribution of
        Inl e \<Rightarrow> Inl e
      | Inr (Some level) \<Rightarrow> Inr level
      | Inr None \<Rightarrow>
          (case distribution of
             [] \<Rightarrow> Inl IndexError
           | (level, _) # _ \<Rightarrow> Inr level))"

definition no_floats :: "unit float_arith" where
  \<comment> \<open>stands for the floating-point operations where a mapping holds no float, and none
      of them is consulted\<close>
  "no_floats =
     \<lparr>float_of_literal = (\<lambda>lit. ()), float_of_int = (\<lambda>n. Some ()),
      float_add = (\<lambda>f g. ()), int_le_float = (\<lambda>n f. False)\<rparr>"

text \<open>
  The running total at a position is what the additions alone give there, without the
  loop's returns: the sum of the weights up to and including the position, added in order
  from 0, or the exception that one of these additions raises.
\<close>

definition total_from ::
  "'f float_arith \<Rightarrow> 'f number \<Rightarrow> (string \<times> json) list \<Rightarrow> nat \<Rightarrow> exn + 'f number" where
  "total_from fl start distribution i =
     foldl (\<lambda>acc percentage. case acc of Inl e \<Rightarrow> Inl e | Inr c \<Rightarrow> add_weight fl c percentage)
       (Inr start) (map snd (take (Suc i) distribution))"

definition running_total ::
  "'f float_arith \<Rightarrow> (string \<times> json) list \<Rightarrow> nat \<Rightarrow> exn + 'f number" where
  "running_total fl distribution i = total_from fl (PyInt 0) distribution i"

definition meets_draw :: "'f float_arith \<Rightarrow> int \<Rightarrow> exn + 'f number \<Rightarrow> bool" where
  \<comment> \<open>the total is a number and the draw is at most the total\<close>
  "meets_draw fl rand reached = (case reached of Inl e \<Rightarrow> False | Inr c \<Rightarrow> int_le_number fl rand c)"

definition below_draw :: "'f float_arith \<Rightarrow> int \<Rightarrow> exn + 'f number \<Rightarrow> bool" where
  \<comment> \<open>the total is a number and the draw is not at most the total\<close>
  "below_draw fl rand reached = (case reached of Inl e \<Rightarrow> False | Inr c \<Rightarrow> \<not> int_le_number fl rand c)"

definition int_weight :: "json \<Rightarrow> int option" where
  \<comment> \<open>the integer that a weight is, when it is an integer or a boolean\<close>
  "int_weight v = (case v of JInt n \<Rightarrow> Some n | JBool b \<Rightarrow> Some (if b then 1 else 0) | _ \<Rightarrow> None)"

section \<open>Properties\<close>

lemma empty_not_allowed: "[] \<notin> gateway_allowed_keys env"
  by (auto simp: gateway_allowed_keys_def Let_def)

text \<open>
  C1. When the accepted-credential set is not empty, authorization succeeds exactly when
  the presented bearer token is a member of the set, and an absent or empty token is
  answered 401 Unauthorized; when the set is empty, every request is answered 503,
  whatever the token.
\<close>

theorem require_auth_iff_member:
  "(gateway_allowed_keys env \<noteq> {} \<longrightarrow>
      (gateway_require_auth env header = None
         \<longleftrightarrow> gateway_extract_bearer_token header \<in> gateway_allowed_keys env)
      \<and> (gateway_require_auth env header \<noteq> None \<longrightarrow>
           gateway_require_auth env header = Some (error_response ''Unauthorized'' 401))
      \<and> (gateway_extract_bearer_token header = [] \<longrightarrow>
           gateway_require_auth env header = Some (error_response ''Unauthorized'' 401)))
   \<and> (gateway_allowed_keys env = {} \<longrightarrow>
      gateway_require_auth env header
        = Some (error_response ''Gateway authentication is not configured'' 503))"
  using empty_not_allowed [of env]
  by (auto simp: gateway_require_auth_def Let_def)

theorem require_auth_iff_member_witness:
  "gateway_allowed_keys \<lparr>GATEWAY_API_KEYS = ''k1, k2'', GATEWAY_API_KEY = ''''\<rparr> \<noteq> {}
   \<and> gateway_extract_bearer_token (Some ''BEARER  k2 '')
       \<in> gateway_allowed_keys \<lparr>GATEWAY_API_KEYS = ''k1, k2'', GATEWAY_API_KEY = ''''\<rparr>
   \<and> gateway_require_auth \<lparr>GATEWAY_API_KEYS = ''k1, k2'', GATEWAY_API_KEY = ''''\<rparr>
         (Some ''BEARER  k2 '') = None"
proof -
  let ?env = "\<lparr>GATEWAY_API_KEYS = ''k1, k2'', GATEWAY_API_KEY = ''''\<rparr>"
  have keys: "gateway_allowed_keys ?env \<noteq> {}"
    by code_simp
  have member: "gateway_extract_bearer_token (Some ''BEARER  k2 '') \<in> gateway_allowed_keys ?env"
    by code_simp
  from require_auth_iff_member [of ?env "Some ''BEARER  k2 ''"] keys member
  show ?thesis by blast
qed

lemma foldl_raised:
  "foldl (\<lambda>acc percentage. case acc of Inl e \<Rightarrow> Inl e | Inr c \<Rightarrow> add_weight fl c percentage)
     (Inl e) ps = Inl e"
  by (induction ps) simp_all

lemma total_from_0: "total_from fl s ((l, p) # rest) 0 = add_weight fl s p"
  by (simp add: total_from_def)

lemma total_from_Suc:
  "total_from fl s ((l, p) # rest) (Suc i) =
     (case add_weight fl s p of Inl e \<Rightarrow> Inl e | Inr c \<Rightarrow> total_from fl c rest i)"
  by (cases "add_weight fl s p") (simp_all add: total_from_def foldl_raised)

lemma total_from_step:
  assumes "Suc i < length d"
  shows "total_from fl s d (Suc i) =
           (case total_from fl s d i of
              Inl e \<Rightarrow> Inl e
            | Inr c \<Rightarrow> add_weight fl c (snd (d ! Suc i)))"
proof -
  have "take (Suc (Suc i)) d = take (Suc i) d @ [d ! Suc i]"
    using assms by (rule take_Suc_conv_app_nth)
  then show ?thesis
    by (simp add: total_from_def)
qed

lemma walk_distribution_meets:
  assumes "i < length d"
    and "meets_draw fl rand (total_from fl s d i)"
    and "\<forall>j<i. below_draw fl rand (total_from fl s d j)"
  shows "walk_distribution fl rand s d = Inr (Some (fst (d ! i)))"
  using assms
proof (induction d arbitrary: s i)
  case Nil
  then show ?case by simp
next
  case (Cons x rest)
  obtain l p where x: "x = (l, p)" by (cases x)
  show ?case
  proof (cases i)
    case 0
    with Cons.prems(2) show ?thesis
      by (cases "add_weight fl s p") (simp_all add: x total_from_0 meets_draw_def)
  next
    case (Suc k)
    from Cons.prems(3) have "below_draw fl rand (total_from fl s (x # rest) 0)"
      by (simp add: Suc)
    then obtain c where c: "add_weight fl s p = Inr c" "\<not> int_le_number fl rand c"
      by (cases "add_weight fl s p") (simp_all add: x total_from_0 below_draw_def)
    have "walk_distribution fl rand c rest = Inr (Some (fst (rest ! k)))"
    proof (rule Cons.IH)
      show "k < length rest" using Cons.prems(1) by (simp add: Suc)
      show "meets_draw fl rand (total_from fl c rest k)"
        using Cons.prems(2) by (simp add: Suc x total_from_Suc c)
      show "\<forall>j<k. below_draw fl rand (total_from fl c rest j)"
      proof (intro allI impI)
        fix j assume "j < k"
        then have "Suc j < i" by (simp add: Suc)
        with Cons.prems(3) have "below_draw fl rand (total_from fl s (x # rest) (Suc j))"
          by blast
        then show "below_draw fl rand (total_from fl c rest j)"
          by (simp add: x total_from_Suc c)
      qed
    qed
    then show ?thesis
      by (simp add: x c Suc)
  qed
qed

lemma walk_distribution_below:
  assumes "\<forall>i<length d. below_draw fl rand (total_from fl s d i)"
  shows "walk_distribution fl rand s d = Inr None"
  using assms
proof (induction d arbitrary: s)
  case Nil
  then show ?case by simp
next
  case (Cons x rest)
  obtain l p where x: "x = (l, p)" by (cases x)
  from Cons.prems have "below_draw fl rand (total_from fl s (x # rest) 0)"
    by simp
  then obtain c where c: "add_weight fl s p = Inr c" "\<not> int_le_number fl rand c"
    by (cases "add_weight fl s p") (simp_all add: x total_from_0 below_draw_def)
  have "walk_distribution fl rand c rest = Inr None"
  proof (rule Cons.IH, intro allI impI)
    fix i assume "i < length rest"
    then have "Suc i < length (x # rest)" by simp
    with Cons.prems have "below_draw fl rand (total_from fl s (x # rest) (Suc i))"
      by blast
    then show "below_draw fl rand (total_from fl c rest i)"
      by (simp add: x total_from_Suc c)
  qed
  then show ?case
    by (simp add: x c)
qed

lemma walk_distribution_raises:
  assumes "i < length d"
    and "total_from fl s d i = Inl e"
    and "\<forall>j<i. below_draw fl rand (total_from fl s d j)"
  shows "walk_distribution fl rand s d = Inl e"
  using assms
proof (induction d arbitrary: s i)
  case Nil
  then show ?case by simp
next
  case (Cons x rest)
  obtain l p where x: "x = (l, p)" by (cases x)
  show ?case
  proof (cases i)
    case 0
    with Cons.prems(2) show ?thesis
      by (simp add: x total_from_0)
  next
    case (Suc k)
    from Cons.prems(3) have "below_draw fl rand (total_from fl s (x # rest) 0)"
      by (simp add: Suc)
    then obtain c where c: "add_weight fl s p = Inr c" "\<not> int_le_number fl rand c"
      by (cases "add_weight fl s p") (simp_all add: x total_from_0 below_draw_def)
    have "walk_distribution fl rand c rest = Inl e"
    proof (rule Cons.IH)
      show "k < length rest" using Cons.prems(1) by (simp add: Suc)
      show "total_from fl c rest k = Inl e"
        using Cons.prems(2) by (simp add: Suc x total_from_Suc c)
      show "\<forall>j<k. below_draw fl rand (total_from fl c rest j)"
      proof (intro allI impI)
        fix j assume "j < k"
        then have "Suc j < i" by (simp add: Suc)
        with Cons.prems(3) have "below_draw fl rand (total_from fl s (x # rest) (Suc j))"
          by blast
        then show "below_draw fl rand (total_from fl c rest j)"
          by (simp add: x total_from_Suc c)
      qed
    qed
    then show ?thesis
      by (simp add: x c)
  qed
qed

lemma walk_distribution_numbers:
  assumes "\<forall>i<length d. \<exists>c. total_from fl s d i = Inr c"
  shows "walk_distribution fl rand s d = Inr None
         \<or> (\<exists>level \<in> fst ` set d. walk_distribution fl rand s d = Inr (Some level))"
  using assms
proof (induction d arbitrary: s)
  case Nil
  then show ?case by simp
next
  case (Cons x rest)
  obtain l p where x: "x = (l, p)" by (cases x)
  from Cons.prems have "\<exists>c. total_from fl s (x # rest) 0 = Inr c"
    by simp
  then obtain c where c: "add_weight fl s p = Inr c"
    by (auto simp: x total_from_0)
  show ?case
  proof (cases "int_le_number fl rand c")
    case True
    then show ?thesis by (simp add: x c)
  next
    case False
    have "walk_distribution fl rand c rest = Inr None
          \<or> (\<exists>level \<in> fst ` set rest. walk_distribution fl rand c rest = Inr (Some level))"
    proof (rule Cons.IH, intro allI impI)
      fix i assume "i < length rest"
      then have "Suc i < length (x # rest)" by simp
      with Cons.prems have "\<exists>c. total_from fl s (x # rest) (Suc i) = Inr c"
        by blast
      then show "\<exists>c'. total_from fl c rest i = Inr c'"
        by (simp add: x total_from_Suc c)
    qed
    with False show ?thesis
      by (auto simp: x c)
  qed
qed

lemma total_from_ints:
  assumes "\<forall>p \<in> snd ` set d. int_weight p \<noteq> None" and "i < length d"
  shows "total_from fl (PyInt a) d i
           = Inr (PyInt (a + sum_list (map (\<lambda>(l, p). the (int_weight p)) (take (Suc i) d))))"
  using assms
proof (induction d arbitrary: a i)
  case Nil
  then show ?case by simp
next
  case (Cons x rest)
  obtain l p where x: "x = (l, p)" by (cases x)
  from Cons.prems(1) obtain n where n: "int_weight p = Some n"
    by (auto simp: x)
  then have add: "add_weight fl (PyInt a) p = Inr (PyInt (a + n))"
    by (cases p) (simp_all add: int_weight_def add_weight_def number_of_json_def number_add_def)
  show ?case
  proof (cases i)
    case 0
    then show ?thesis by (simp add: x total_from_0 add n)
  next
    case (Suc k)
    have "total_from fl (PyInt (a + n)) rest k
            = Inr (PyInt (a + n + sum_list (map (\<lambda>(l, p). the (int_weight p)) (take (Suc k) rest))))"
      using Cons.prems by (intro Cons.IH) (simp_all add: Suc)
    then show ?thesis
      by (simp add: x Suc total_from_Suc add n add.assoc)
  qed
qed

lemma total_from_not_number:
  assumes "i < length d" and "number_of_json fl (snd (d ! i)) = None"
    and "\<forall>j<i. below_draw fl rand (total_from fl s d j)"
  shows "total_from fl s d i = Inl TypeError"
proof (cases i)
  case 0
  from assms(1) obtain l p rest where d: "d = (l, p) # rest"
    by (cases d) auto
  with assms(2) show ?thesis
    by (simp add: 0 total_from_0 add_weight_def)
next
  case (Suc k)
  from assms(3) have "below_draw fl rand (total_from fl s d k)"
    by (simp add: Suc)
  then obtain c where "total_from fl s d k = Inr c"
    by (cases "total_from fl s d k") (simp_all add: below_draw_def)
  with assms(1,2) show ?thesis
    by (simp add: Suc total_from_step add_weight_def)
qed

lemma walk_distribution_no_float:
  assumes "\<forall>p \<in> snd ` set d. \<forall>lit. p \<noteq> JFloat lit"
  shows "walk_distribution fl rand (PyInt a) d = walk_distribution fl' rand (PyInt a) d"
  using assms
proof (induction d arbitrary: a)
  case Nil
  then show ?case by simp
next
  case (Cons x rest)
  obtain l p where x: "x = (l, p)" by (cases x)
  from Cons.prems have rest: "\<forall>p \<in> snd ` set rest. \<forall>lit. p \<noteq> JFloat lit"
    by simp
  from Cons.prems have "\<forall>lit. p \<noteq> JFloat lit"
    by (simp add: x)
  then show ?case
    by (cases p)
       (simp_all add: x add_weight_def number_of_json_def number_add_def int_le_number_def
          Cons.IH [OF rest])
qed

lemma select_from_distribution_no_float:
  "\<forall>p \<in> snd ` set d. \<forall>lit. p \<noteq> JFloat lit \<Longrightarrow>
     select_from_distribution fl rand d = select_from_distribution fl' rand d"
  by (simp add: select_from_distribution_def walk_distribution_no_float [of d fl rand 0 fl'])

lemma select_from_distribution_fallback:
  assumes "distribution \<noteq> []"
    and "walk_distribution fl rand (PyInt 0) distribution = Inr None"
  shows "select_from_distribution fl rand distribution = Inr (fst (distribution ! 0))"
proof -
  from assms(1) obtain l p rest where "distribution = (l, p) # rest"
    by (cases distribution) auto
  then have "(case distribution of [] \<Rightarrow> Inl IndexError | (level, _) # _ \<Rightarrow> Inr level)
               = (Inr (fst (distribution ! 0)) :: exn + string)"
    by simp
  with assms(2) show ?thesis
    by (simp add: select_from_distribution_def)
qed

text \<open>
  C4, as amended. On a non-empty mapping and for every draw, \<open>_select_from_distribution\<close>
  returns the label of the first position whose running total meets or exceeds the draw,
  and the first declared label when every running total is below the draw. It raises
  what the additions raise when they fail before a running total has met the draw, which
  is \<open>TypeError\<close> at a weight that is not a number. So when the weights add up without an
  exception it does not raise and returns a declared label; weights that are integers or
  booleans always add up, to their exact sums. The running totals are the loop's own:
  floating-point once a float has been added, and not increasing when a weight is
  negative.
\<close>

theorem select_from_distribution_declared_label:
  assumes "distribution \<noteq> []"
  shows "(\<forall>i<length distribution.
            meets_draw fl rand (running_total fl distribution i)
            \<and> (\<forall>j<i. below_draw fl rand (running_total fl distribution j))
            \<longrightarrow> select_from_distribution fl rand distribution = Inr (fst (distribution ! i)))
       \<and> ((\<forall>i<length distribution. below_draw fl rand (running_total fl distribution i))
            \<longrightarrow> select_from_distribution fl rand distribution = Inr (fst (distribution ! 0)))
       \<and> (\<forall>i<length distribution.
            running_total fl distribution i = Inl e
            \<and> (\<forall>j<i. below_draw fl rand (running_total fl distribution j))
            \<longrightarrow> select_from_distribution fl rand distribution = Inl e)
       \<and> (\<forall>i<length distribution.
            number_of_json fl (snd (distribution ! i)) = None
            \<and> (\<forall>j<i. below_draw fl rand (running_total fl distribution j))
            \<longrightarrow> select_from_distribution fl rand distribution = Inl TypeError)
       \<and> ((\<forall>i<length distribution. \<exists>c. running_total fl distribution i = Inr c)
            \<longrightarrow> (\<exists>level \<in> fst ` set distribution.
                   select_from_distribution fl rand distribution = Inr level))
       \<and> ((\<forall>p \<in> snd ` set distribution. int_weight p \<noteq> None)
            \<longrightarrow> (\<forall>i<length distribution.
                   running_total fl distribution i
                     = Inr (PyInt (sum_list (map (\<lambda>(l, p). the (int_weight p))
                                             (take (Suc i) distribution))))))"
proof (intro conjI allI impI)
  fix i
  assume "i < length distribution"
    and "meets_draw fl rand (running_total fl distribution i)
         \<and> (\<forall>j<i. below_draw fl rand (running_total fl distribution j))"
  then have "walk_distribution fl rand (PyInt 0) distribution = Inr (Some (fst (distribution ! i)))"
    by (intro walk_distribution_meets) (simp_all add: running_total_def)
  then show "select_from_distribution fl rand distribution = Inr (fst (distribution ! i))"
    by (simp add: select_from_distribution_def)
next
  assume "\<forall>i<length distribution. below_draw fl rand (running_total fl distribution i)"
  then have "walk_distribution fl rand (PyInt 0) distribution = Inr None"
    by (intro walk_distribution_below) (simp add: running_total_def)
  from select_from_distribution_fallback [OF assms this]
  show "select_from_distribution fl rand distribution = Inr (fst (distribution ! 0))" .
next
  fix i
  assume "i < length distribution"
    and "running_total fl distribution i = Inl e
         \<and> (\<forall>j<i. below_draw fl rand (running_total fl distribution j))"
  then have "walk_distribution fl rand (PyInt 0) distribution = Inl e"
    by (intro walk_distribution_raises [of i]) (simp_all add: running_total_def)
  then show "select_from_distribution fl rand distribution = Inl e"
    by (simp add: select_from_distribution_def)
next
  fix i
  assume i: "i < length distribution"
    and n: "number_of_json fl (snd (distribution ! i)) = None
         \<and> (\<forall>j<i. below_draw fl rand (running_total fl distribution j))"
  then have below: "\<forall>j<i. below_draw fl rand (total_from fl (PyInt 0) distribution j)"
    by (simp add: running_total_def)
  from n have "total_from fl (PyInt 0) distribution i = Inl TypeError"
    by (intro total_from_not_number [OF i _ below]) simp
  from walk_distribution_raises [OF i this below]
  show "select_from_distribution fl rand distribution = Inl TypeError"
    by (simp add: select_from_distribution_def)
next
  assume "\<forall>i<length distribution. \<exists>c. running_total fl distribution i = Inr c"
  then have "\<forall>i<length distribution. \<exists>c. total_from fl (PyInt 0) distribution i = Inr c"
    by (simp add: running_total_def)
  from walk_distribution_numbers [OF this, of rand]
  have "walk_distribution fl rand (PyInt 0) distribution = Inr None
        \<or> (\<exists>level \<in> fst ` set distribution.
              walk_distribution fl rand (PyInt 0) distribution = Inr (Some level))" .
  then show "\<exists>level \<in> fst ` set distribution.
               select_from_distribution fl rand distribution = Inr level"
  proof (elim disjE bexE)
    assume "walk_distribution fl rand (PyInt 0) distribution = Inr None"
    from select_from_distribution_fallback [OF assms this]
    have "select_from_distribution fl rand distribution = Inr (fst (distribution ! 0))" .
    moreover have "fst (distribution ! 0) \<in> fst ` set distribution"
      using assms by simp
    ultimately show ?thesis by blast
  next
    fix level
    assume "level \<in> fst ` set distribution"
      and "walk_distribution fl rand (PyInt 0) distribution = Inr (Some level)"
    then show ?thesis
      by (intro bexI [of _ level]) (simp_all add: select_from_distribution_def)
  qed
next
  fix i
  assume "\<forall>p \<in> snd ` set distribution. int_weight p \<noteq> None" and "i < length distribution"
  from total_from_ints [OF this, of fl 0]
  show "running_total fl distribution i
          = Inr (PyInt (sum_list (map (\<lambda>(l, p). the (int_weight p)) (take (Suc i) distribution))))"
    by (simp add: running_total_def)
qed

theorem select_from_distribution_declared_label_witness:
  "[(''easy'', JInt 20), (''medium'', JInt 60), (''hard'', JInt 20)] \<noteq> []
   \<and> below_draw no_floats 50
         (running_total no_floats [(''easy'', JInt 20), (''medium'', JInt 60), (''hard'', JInt 20)] 0)
   \<and> meets_draw no_floats 50
         (running_total no_floats [(''easy'', JInt 20), (''medium'', JInt 60), (''hard'', JInt 20)]
            (Suc 0))
   \<and> select_from_distribution no_floats 50
         [(''easy'', JInt 20), (''medium'', JInt 60), (''hard'', JInt 20)] = Inr ''medium''
   \<and> running_total no_floats [(''easy'', JInt 20), (''medium'', JInt 60), (''hard'', JInt 20)]
         (Suc (Suc 0)) = Inr (PyInt 100)"
proof -
  let ?d = "[(''easy'', JInt 20), (''medium'', JInt 60), (''hard'', JInt 20)]"
  have ne: "?d \<noteq> []"
    by simp
  have below: "below_draw no_floats 50 (running_total no_floats ?d 0)"
    by (simp add: below_draw_def running_total_def total_from_0 add_weight_def
          number_of_json_def number_add_def int_le_number_def)
  have meets: "meets_draw no_floats 50 (running_total no_floats ?d (Suc 0))"
    by (simp add: meets_draw_def running_total_def total_from_0 total_from_Suc add_weight_def
          number_of_json_def number_add_def int_le_number_def)
  have ints: "\<forall>p \<in> snd ` set ?d. int_weight p \<noteq> None"
    by (simp add: int_weight_def)
  note select = select_from_distribution_declared_label
    [OF ne, where fl = no_floats and rand = 50 and e = TypeError]
  from select have "\<forall>i<length ?d.
      meets_draw no_floats 50 (running_total no_floats ?d i)
      \<and> (\<forall>j<i. below_draw no_floats 50 (running_total no_floats ?d j))
      \<longrightarrow> select_from_distribution no_floats 50 ?d = Inr (fst (?d ! i))"
    by (rule conjunct1)
  from this [rule_format, of "Suc 0"] below meets
  have chosen: "select_from_distribution no_floats 50 ?d = Inr ''medium''"
    by simp
  from select ints have "\<forall>i<length ?d.
      running_total no_floats ?d i
        = Inr (PyInt (sum_list (map (\<lambda>(l, p). the (int_weight p)) (take (Suc i) ?d))))"
    by blast
  from this [rule_format, of "Suc (Suc 0)"]
  have "running_total no_floats ?d (Suc (Suc 0)) = Inr (PyInt 100)"
    by (simp add: int_weight_def)
  with ne below meets chosen show ?thesis
    by blast
qed

text \<open>
  The claim as the specification states it fails on three mappings. On the empty one the
  fallback \<open>list(distribution.keys())[0]\<close> raises. With the weights 10, 50 and -40 the
  draw 30 exceeds the cumulative sum 20, and the label returned is not the first one but
  the second, whose running total 60 met the draw. A weight that is a string raises
  \<open>TypeError\<close> at the addition.
\<close>

theorem select_from_distribution_fails_as_stated:
  "select_from_distribution no_floats 50 [] = Inl IndexError
   \<and> select_from_distribution no_floats 30 [(''a'', JInt 10), (''b'', JInt 50), (''c'', JInt (- 40))]
       = Inr ''b''
   \<and> select_from_distribution no_floats 50 [(''easy'', JStr ''20'')] = Inl TypeError"
  by (simp add: select_from_distribution_def add_weight_def number_of_json_def number_add_def
        int_le_number_def)

lemma startswith_Cons_mem: "startswith s (p # ps) \<Longrightarrow> p \<in> set s"
  by (cases s) auto

lemma contains_Cons_mem: "contains s (p # ps) \<Longrightarrow> p \<in> set s"
  by (induction s) (auto dest: startswith_Cons_mem)

lemma backslash_not_lowercase: "backslash \<notin> set lowercase_letters"
  by (simp add: lowercase_letters_def backslash_def)

lemma lower_char_backslash: "lower_char c = backslash \<Longrightarrow> c = backslash"
proof (cases "map_of (zip uppercase_letters lowercase_letters) c")
  case None
  assume "lower_char c = backslash"
  with None show ?thesis by (simp add: lower_char_def)
next
  case (Some l)
  assume "lower_char c = backslash"
  with Some have "l = backslash" by (simp add: lower_char_def)
  moreover from Some have "l \<in> set lowercase_letters"
    by (meson map_of_SomeD set_zip_rightD)
  ultimately show ?thesis using backslash_not_lowercase by simp
qed

lemma must_rule_needs_backslash:
  "backslash \<notin> set line \<Longrightarrow> \<not> re_search_literal True must_pattern line"
proof
  assume no: "backslash \<notin> set line" and "re_search_literal True must_pattern line"
  then have "contains (lower line) (lower_char backslash # lower (''bmust'' @ [backslash, CHR ''b'']))"
    by (simp add: must_pattern_def lower_def)
  then have "lower_char backslash \<in> set (lower line)"
    by (rule contains_Cons_mem)
  moreover have "lower_char backslash = backslash"
    by code_simp
  ultimately obtain c where "c \<in> set line" "lower_char c = backslash"
    by (auto simp: lower_def)
  with no show False by (auto dest: lower_char_backslash)
qed

text \<open>
  C3. The claim says that softening leaves no standalone "must". The code's patterns are
  written \<open>r"\\bmust\\b"\<close>: in a raw string they match a backslash, \<open>bmust\<close>, a
  backslash and \<open>b\<close>, not the word (\<open>must_rule_needs_backslash\<close>). On an instruction
  line the "strict json" rule fires and the word "must" stays.
\<close>

theorem soften_prompt_keeps_must:
  "soften_prompt ''You must return STRICT JSON.''
     = ''You must return valid JSON.'' @ [newline]
       @ ''Please return only a valid JSON object.''"
  by code_simp

text \<open>
  C8. The claim says that a long-form content field over the ceiling is cut to the ceiling
  with a truncation marker appended. The question-generation builder does so (5000
  characters, then \<open>...\<close>); the topic-extraction builder cuts to 150000 characters and
  appends no marker.
\<close>

theorem topic_extraction_truncates_without_marker:
  "build_topic_extraction_prompt instructions (replicate 150001 CHR ''a'')
     = ''You are an educational content analyzer. Extract meaningful topics from the content structure.''
       @ [newline, newline] @ ''CONTENT TO ANALYZE:'' @ [newline] @ ''---'' @ [newline]
       @ replicate 150000 CHR ''a'' @ [newline] @ ''---'' @ [newline, newline] @ instructions"
  by (simp add: build_topic_extraction_prompt_def Let_def)

lemma topic_extraction_content:
  "build_topic_extraction_prompt instructions content
     = ''You are an educational content analyzer. Extract meaningful topics from the content structure.''
       @ [newline, newline] @ ''CONTENT TO ANALYZE:'' @ [newline] @ ''---'' @ [newline]
       @ take 150000 content @ [newline] @ ''---'' @ [newline, newline] @ instructions"
  by (simp add: build_topic_extraction_prompt_def Let_def)

lemma question_generation_content_over:
  "length topic_content > 5000 \<Longrightarrow>
   question_generation_prompt_start topic_title topic_content
     = ''Topic: '' @ topic_title @ [newline] @ ''Content:'' @ [newline]
       @ take 5000 topic_content @ ''...'' @ [newline, newline]"
  by (simp add: question_generation_prompt_start_def Let_def)

lemma question_generation_content_under:
  "length topic_content \<le> 5000 \<Longrightarrow>
   question_generation_prompt_start topic_title topic_content
     = ''Topic: '' @ topic_title @ [newline] @ ''Content:'' @ [newline]
       @ topic_content @ [newline, newline]"
  by (simp add: question_generation_prompt_start_def Let_def)

end
